theory Spec2Isabelle
  imports Complex_Main "HOL-Library.Sublist"
begin

section \<open>JavaScript strings: includes, trim, and the fence-removing replace\<close>

text \<open>
  Strings are lists of characters. \<open>js_includes s sub\<close> is \<open>s.includes(sub)\<close>:
  \<open>sub\<close> occurs in \<open>s\<close> as a contiguous run.
\<close>

primrec js_includes :: "string \<Rightarrow> string \<Rightarrow> bool" where
  "js_includes [] sub = (sub = [])"
| "js_includes (c # cs) sub = (prefix sub (c # cs) \<or> js_includes cs sub)"

text \<open>
  \<open>String.prototype.trim\<close> removes white space and line terminators from both ends.
  A character stands for a code unit below 256; among these the ones \<open>trim\<close> removes
  are tab, line feed, vertical tab, form feed, carriage return, space and the no-break
  space (code points 9 to 13, 32 and 160). The white space above 255 (such as U+2028 or
  U+FEFF) has no character here.
\<close>

definition is_js_space :: "char \<Rightarrow> bool" where
  "is_js_space c = (of_char c \<in> {9, 10, 11, 12, 13, 32, 160 :: nat})"

definition js_trim :: "string \<Rightarrow> string" where
  "js_trim s = rev (dropWhile is_js_space (rev (dropWhile is_js_space s)))"

text \<open>
  \<open>text.replace(/```(?:json)?\n?/g, "")\<close>: scanning from the left, every run of three
  backticks is removed together with a directly following \<open>json\<close> (if present) and a
  directly following line feed (if present). Both optional groups are greedy and what
  follows them can match the empty string, so the regular expression never backtracks.
\<close>

fun skip_json :: "string \<Rightarrow> string" where
  "skip_json (a # b # c # d # cs) =
     (if [a, b, c, d] = ''json'' then cs else a # b # c # d # cs)"
| "skip_json cs = cs"

fun skip_newline :: "string \<Rightarrow> string" where
  "skip_newline (c # cs) = (if c = CHR 0x0A then cs else c # cs)"
| "skip_newline [] = []"

lemma length_skip_json: "length (skip_json cs) \<le> length cs"
  by (induction cs rule: skip_json.induct) auto

lemma length_skip_newline: "length (skip_newline cs) \<le> length cs"
  by (cases cs) auto

function strip_fences :: "string \<Rightarrow> string" where
  "strip_fences (a # b # c # cs) =
     (if a = CHR ''`'' \<and> b = CHR ''`'' \<and> c = CHR ''`''
      then strip_fences (skip_newline (skip_json cs))
      else a # strip_fences (b # c # cs))"
| "strip_fences [a, b] = [a, b]"
| "strip_fences [a] = [a]"
| "strip_fences [] = []"
  by pat_completeness auto
termination
proof (relation "measure length")
  show "wf (measure length)" by simp
next
  fix a b c :: char and cs :: string
  have "length (skip_newline (skip_json cs)) \<le> length cs"
    using length_skip_newline [of "skip_json cs"] length_skip_json [of cs] by linarith
  then show "(skip_newline (skip_json cs), a # b # c # cs) \<in> measure length"
    by simp
next
  fix a b c :: char and cs :: string
  show "(b # c # cs, a # b # c # cs) \<in> measure length" by simp
qed

text \<open>The cleaning both generation paths apply to the reply before \<open>JSON.parse\<close>.\<close>

definition cleanedText :: "string \<Rightarrow> string" where
  "cleanedText text = js_trim (strip_fences text)"


section \<open>Values, thrown errors and the remote generation call\<close>

text \<open>
  JavaScript values as far as the program handles them: what \<open>JSON.parse\<close> can
  return, and \<open>Date\<close> objects (milliseconds since the epoch) for the persisted
  timestamps. An object is the list of its own properties in enumeration order.
\<close>

datatype jsval =
    JNull
  | JBool bool
  | JNum rat
  | JStr string
  | JDate int
  | JArr "jsval list"
  | JObj "(string \<times> jsval) list"

type_synonym obj = "(string \<times> jsval) list"

text \<open>
  An error object, as far as the code inspects it: the \<open>status\<close> and \<open>message\<close>
  properties, each possibly absent. Anything can be thrown in JavaScript; reading a
  property of a thrown \<open>undefined\<close> or \<open>null\<close> is itself a \<open>TypeError\<close>, so
  these two are kept apart.
\<close>

record js_error =
  status :: "int option"
  message :: "string option"

datatype nullish = Undefined | Null

datatype thrown = ThrownNullish nullish | ThrownError js_error

definition new_Error :: "string \<Rightarrow> thrown" where
  "new_Error msg = ThrownError \<lparr>status = None, message = Some msg\<rparr>"

text \<open>
  The \<open>TypeError\<close> raised by reading property \<open>p\<close> of \<open>undefined\<close>, and the one
  raised by reading it of a nullish value, whose message names \<open>undefined\<close> or \<open>null\<close>.
\<close>

definition type_error :: "string \<Rightarrow> thrown" where
  "type_error p =
     new_Error (''Cannot read properties of undefined (reading '' @ [CHR 0x27] @ p @ [CHR 0x27] @ '')'')"

definition type_error_of :: "nullish \<Rightarrow> string \<Rightarrow> thrown" where
  "type_error_of n p =
     (case n of
        Undefined \<Rightarrow> type_error p
      | Null \<Rightarrow>
          new_Error (''Cannot read properties of null (reading '' @ [CHR 0x27] @ p @ [CHR 0x27] @ '')''))"

text \<open>
  The reply of \<open>model.generateContent(prompt)\<close>, with the parts the code reads:
  \<open>result.response\<close>, \<open>response.candidates\<close>, \<open>candidates[0].finishReason\<close>,
  \<open>candidates[0].content.parts[0].text\<close> and the method \<open>response.text()\<close>, which returns
  a string or \<open>undefined\<close>, or throws. \<open>None\<close> is an absent (undefined) property.
\<close>

record part =
  part_text :: "string option"

record content =
  parts :: "part list option"

record candidate =
  finishReason :: "string option"
  content :: "content option"

record gen_response =
  candidates :: "candidate list option"
  text_fn :: "thrown + string option"

record gen_result =
  response :: "gen_response option"

text \<open>
  The observable effects: the number of remote invocations made so far, the delays (in
  milliseconds) handed to \<open>setTimeout\<close> in order, the number of clock reads, and the
  rows of the insight table keyed by industry.
\<close>

record world =
  calls :: nat
  sleeps :: "int list"
  ticks :: nat
  rows :: "(string \<times> obj) list"

type_synonym 'a action = "world \<Rightarrow> (thrown + 'a) \<times> world"

text \<open>
  The remote generator is opaque: \<open>remote k\<close> is what its invocation number \<open>k\<close> (counted
  from 0) does, either throwing or resolving to a result. The prompt is the same text at
  every attempt of one run, so the reply is indexed by the invocation only.
\<close>

type_synonym remote = "nat \<Rightarrow> thrown + gen_result"

definition generateContent :: "remote \<Rightarrow> gen_result action" where
  "generateContent rem w = (rem (calls w), w\<lparr>calls := Suc (calls w)\<rparr>)"

text \<open>\<open>await new Promise(resolve => setTimeout(resolve, delay))\<close>\<close>

definition sleep :: "int \<Rightarrow> world \<Rightarrow> world" where
  "sleep delay w = w\<lparr>sleeps := sleeps w @ [delay]\<rparr>"

text \<open>\<open>Date.now()\<close> and \<open>new Date()\<close>: read number \<open>k\<close> of the clock returns \<open>clock k\<close>.\<close>

definition date_now :: "(nat \<Rightarrow> int) \<Rightarrow> world \<Rightarrow> int \<times> world" where
  "date_now clock w = (clock (ticks w), w\<lparr>ticks := Suc (ticks w)\<rparr>)"

section \<open>The two retry wrappers\<close>

text \<open>
  \<open>retryWithBackoff\<close> of the scheduled job (lib/inngest/function.js). The loop variable
  \<open>i\<close> runs from 0 while \<open>i < maxRetries\<close>. A failure on the last round is rethrown
  before the error is inspected; otherwise the error's \<open>status\<close> is read (a
  \<open>TypeError\<close> when the thrown value is nullish) and only 503 and 429 are retried after
  sleeping \<open>initialDelay * 2^i\<close>. Falling off the loop returns \<open>undefined\<close>, modelled
  as \<open>None\<close>.
\<close>

function inngest_retry_loop ::
  "'a action \<Rightarrow> int \<Rightarrow> int \<Rightarrow> nat \<Rightarrow> world \<Rightarrow> (thrown + 'a option) \<times> world" where
  "inngest_retry_loop fn maxRetries initialDelay i w =
     (if int i < maxRetries then
        (case fn w of
           (Inr v, w1) \<Rightarrow> (Inr (Some v), w1)
         | (Inl error, w1) \<Rightarrow>
             if int i = maxRetries - 1 then (Inl error, w1)
             else (case error of
                     ThrownNullish n \<Rightarrow> (Inl (type_error_of n ''status''), w1)
                   | ThrownError e \<Rightarrow>
                       if status e = Some 503 \<or> status e = Some 429
                       then inngest_retry_loop fn maxRetries initialDelay (Suc i)
                              (sleep (initialDelay * 2 ^ i) w1)
                       else (Inl error, w1)))
      else (Inr None, w))"
  by pat_completeness auto
termination
  by (relation "measure (\<lambda>(fn, maxRetries, initialDelay, i, w). nat (maxRetries - int i))") auto

definition inngest_retryWithBackoff ::
  "'a action \<Rightarrow> int \<Rightarrow> int \<Rightarrow> world \<Rightarrow> (thrown + 'a option) \<times> world" where
  "inngest_retryWithBackoff fn maxRetries initialDelay w =
     inngest_retry_loop fn maxRetries initialDelay 0 w"

text \<open>
  \<open>retryWithBackoff\<close> of the dashboard actions. Here the error's \<open>message\<close> is read on
  every failure (a \<open>TypeError\<close> when the thrown value is nullish); the failure is
  retried only when the message contains \<open>overloaded\<close> or \<open>503\<close> and the round is not
  the last one. The \<open>status\<close> property is never read.
\<close>

definition isOverloaded :: "js_error \<Rightarrow> bool" where
  "isOverloaded e =
     (case message e of
        None \<Rightarrow> False
      | Some m \<Rightarrow> js_includes m ''overloaded'' \<or> js_includes m ''503'')"

function dashboard_retry_loop ::
  "'a action \<Rightarrow> int \<Rightarrow> int \<Rightarrow> nat \<Rightarrow> world \<Rightarrow> (thrown + 'a option) \<times> world" where
  "dashboard_retry_loop fn maxRetries baseDelay i w =
     (if int i < maxRetries then
        (case fn w of
           (Inr v, w1) \<Rightarrow> (Inr (Some v), w1)
         | (Inl error, w1) \<Rightarrow>
             (case error of
                ThrownNullish n \<Rightarrow> (Inl (type_error_of n ''message''), w1)
              | ThrownError e \<Rightarrow>
                  let isLastRetry = (int i = maxRetries - 1) in
                  if isLastRetry \<or> \<not> isOverloaded e then (Inl error, w1)
                  else dashboard_retry_loop fn maxRetries baseDelay (Suc i)
                         (sleep (baseDelay * 2 ^ i) w1)))
      else (Inr None, w))"
  by pat_completeness auto
termination
  by (relation "measure (\<lambda>(fn, maxRetries, baseDelay, i, w). nat (maxRetries - int i))") auto

definition dashboard_retryWithBackoff ::
  "'a action \<Rightarrow> int \<Rightarrow> int \<Rightarrow> world \<Rightarrow> (thrown + 'a option) \<times> world" where
  "dashboard_retryWithBackoff fn maxRetries baseDelay w =
     dashboard_retry_loop fn maxRetries baseDelay 0 w"

section \<open>Objects, the fallback record and the persistence collaborator\<close>

text \<open>
  Property order: the keys that are array indices (canonical decimal numerals below
  \<open>2^32 - 1\<close>) come first in ascending numeric order, the other keys follow in the order
  of their creation. Assigning to an existing key keeps its place.
\<close>

definition index_value :: "string \<Rightarrow> nat" where
  "index_value k = foldl (\<lambda>n c. 10 * n + (of_char c - 48)) 0 k"

definition is_index_key :: "string \<Rightarrow> bool" where
  "is_index_key k =
     (k \<noteq> [] \<and> list_all (\<lambda>c. (48::nat) \<le> of_char c \<and> of_char c \<le> (57::nat)) k \<and>
      (k = ''0'' \<or> hd k \<noteq> CHR ''0'') \<and> index_value k < 4294967295)"

definition key_before :: "string \<Rightarrow> string \<Rightarrow> bool" where
  "key_before k k' =
     (is_index_key k \<and> (if is_index_key k' then index_value k < index_value k' else True))"

fun insert_prop :: "string \<Rightarrow> jsval \<Rightarrow> obj \<Rightarrow> obj" where
  "insert_prop k v [] = [(k, v)]"
| "insert_prop k v ((k', v') # kvs) =
     (if key_before k k' then (k, v) # (k', v') # kvs else (k', v') # insert_prop k v kvs)"

definition set_prop :: "string \<Rightarrow> jsval \<Rightarrow> obj \<Rightarrow> obj" where
  "set_prop k v ob =
     (if k \<in> fst ` set ob
      then map (\<lambda>(k', v'). if k' = k then (k', v) else (k', v')) ob
      else insert_prop k v ob)"

fun show_nat :: "nat \<Rightarrow> string" where
  "show_nat n =
     (if n < 10 then [char_of (48 + n)]
      else show_nat (n div 10) @ [char_of (48 + n mod 10)])"

text \<open>
  A failure of \<open>model.generateContent\<close> with an HTTP status: the client library (not
  among the sources) throws an error object whose \<open>status\<close> is the status code and
  whose \<open>message\<close> quotes the code in brackets before the status text, as in
  \<open>[503 Service Unavailable]\<close>.
\<close>

definition http_failure :: "nat \<Rightarrow> js_error \<Rightarrow> bool" where
  "http_failure code e =
     (status e = Some (int code) \<and>
      (case message e of
         None \<Rightarrow> False
       | Some m \<Rightarrow> js_includes m (''['' @ show_nat code @ '' '')))"

text \<open>
  The own enumerable properties an object spread \<open>...v\<close> copies: those of an object, the
  indexed elements of an array, the indexed characters of a string, and nothing for
  \<open>undefined\<close> (\<open>None\<close>), \<open>null\<close>, booleans, numbers and dates.
\<close>

fun own_props :: "jsval option \<Rightarrow> obj" where
  "own_props (Some (JObj kvs)) = kvs"
| "own_props (Some (JArr xs)) = zip (map show_nat [0..<length xs]) xs"
| "own_props (Some (JStr s)) = zip (map show_nat [0..<length s]) (map (\<lambda>c. JStr [c]) s)"
| "own_props _ = []"

definition spread :: "jsval option \<Rightarrow> obj \<Rightarrow> obj" where
  "spread v target = fold (\<lambda>(k, x). set_prop k x) (own_props v) target"

definition salaryRange :: "string \<Rightarrow> rat \<Rightarrow> rat \<Rightarrow> rat \<Rightarrow> string \<Rightarrow> jsval" where
  "salaryRange role mn mx median location =
     JObj [(''role'', JStr role), (''min'', JNum mn), (''max'', JNum mx),
           (''median'', JNum median), (''location'', JStr location)]"

definition getFallbackInsights :: "string \<Rightarrow> jsval" where
  "getFallbackInsights industry =
     JObj [
       (''salaryRanges'', JArr [
          salaryRange ''Entry Level'' 40000 60000 50000 ''Global'',
          salaryRange ''Mid Level'' 60000 90000 75000 ''Global'',
          salaryRange ''Senior Level'' 90000 130000 110000 ''Global'',
          salaryRange ''Lead/Manager'' 110000 160000 135000 ''Global'',
          salaryRange ''Director/VP'' 140000 200000 170000 ''Global'']),
       (''growthRate'', JNum 5),
       (''demandLevel'', JStr ''MEDIUM''),
       (''topSkills'', JArr (map JStr
          [''Communication'', ''Problem Solving'', ''Technical Skills'', ''Teamwork'',
           ''Adaptability''])),
       (''marketOutlook'', JStr ''POSITIVE''),
       (''keyTrends'', JArr (map JStr
          [''Digital Transformation'', ''Remote Work'', ''AI Integration'', ''Sustainability'',
           ''Data-Driven Decision Making''])),
       (''recommendedSkills'', JArr (map JStr
          [''Leadership'', ''Project Management'', ''Data Analysis'', ''Cloud Computing'',
           ''Agile Methodologies'']))]"

text \<open>
  Modelled from the spec: the persistence collaborator (the Prisma client of lib/prisma
  and its schema are not among the sources). It "accepts a GenerationResult keyed by
  subject and a computed next refresh timestamp" and "supports create-if-absent and
  update-by-key semantics"; "subjects are looked up by an exact-match unique key".
  \<open>db_create\<close> stores the data object as a new row under its \<open>industry\<close> and returns
  it, and throws when the key is taken or is not a string; \<open>db_update\<close> overwrites the
  given properties of the row with that key, and throws when there is no such row.
\<close>

definition db_create :: "obj \<Rightarrow> obj action" where
  "db_create data w =
     (case map_of data ''industry'' of
        Some (JStr k) \<Rightarrow>
          if k \<in> set (map fst (rows w))
          then (Inl (new_Error ''Unique constraint failed on the fields: (industry)''), w)
          else (Inr data, w\<lparr>rows := rows w @ [(k, data)]\<rparr>)
      | _ \<Rightarrow> (Inl (new_Error ''Argument industry is missing.''), w))"

definition db_update :: "string \<Rightarrow> obj \<Rightarrow> obj action" where
  "db_update industry data w =
     (case map_of (rows w) industry of
        None \<Rightarrow> (Inl (new_Error ''Record to update not found.''), w)
      | Some row \<Rightarrow>
          let row' = fold (\<lambda>(k, x). set_prop k x) data row
          in (Inr row', w\<lparr>rows := map (\<lambda>(k, r). if k = industry then (k, row') else (k, r)) (rows w)\<rparr>))"

section \<open>On-demand insights: generateAIInsights\<close>

text \<open>
  \<open>JSON.parse\<close> is a built-in of the runtime; it is a parameter here. It returns the
  parsed value or throws a \<open>SyntaxError\<close> object.
\<close>

type_synonym json_parse = "string \<Rightarrow> js_error + jsval"

text \<open>
  The function handed to the retry wrapper by \<open>generateAIInsights\<close>: one remote
  invocation, then \<open>result.response\<close>, \<open>response.text()\<close>, the cleaning and
  \<open>JSON.parse\<close>, all inside the wrapper's \<open>try\<close>.
\<close>

definition insights_attempt :: "remote \<Rightarrow> json_parse \<Rightarrow> jsval action" where
  "insights_attempt rem parse w =
     (case generateContent rem w of
        (Inl t, w1) \<Rightarrow> (Inl t, w1)
      | (Inr result, w1) \<Rightarrow>
          (case response result of
             None \<Rightarrow> (Inl (type_error ''text''), w1)
           | Some resp \<Rightarrow>
               (case text_fn resp of
                  Inl t \<Rightarrow> (Inl t, w1)
                | Inr None \<Rightarrow> (Inl (type_error ''replace''), w1)
                | Inr (Some text) \<Rightarrow>
                    (case parse (cleanedText text) of
                       Inl e \<Rightarrow> (Inl (ThrownError e), w1)
                     | Inr v \<Rightarrow> (Inr v, w1)))))"

text \<open>
  \<open>generateAIInsights\<close>: the wrapper is called with its defaults (3 rounds, base delay
  1000). The \<open>catch\<close> block reads \<open>error.message\<close> for the log line (a \<open>TypeError\<close>
  if the caught value were nullish) and returns the fallback record.
\<close>

definition generateAIInsights ::
  "string \<Rightarrow> remote \<Rightarrow> json_parse \<Rightarrow> world \<Rightarrow> (thrown + jsval option) \<times> world" where
  "generateAIInsights industry rem parse w =
     (case dashboard_retryWithBackoff (insights_attempt rem parse) 3 1000 w of
        (Inr v, w1) \<Rightarrow> (Inr v, w1)
      | (Inl error, w1) \<Rightarrow>
          (case error of
             ThrownNullish n \<Rightarrow> (Inl (type_error_of n ''message''), w1)
           | ThrownError e \<Rightarrow> (Inr (Some (getFallbackInsights industry)), w1)))"

text \<open>The refresh interval both persisting paths add to \<open>Date.now()\<close>.\<close>

definition week_ms :: int where
  "week_ms = 7 * 24 * 60 * 60 * 1000"

section \<open>The scheduled job: generateIndustryInsights\<close>

text \<open>
  \<open>res.response.candidates[0].content.parts[0].text || ""\<close>: every link of the chain
  is read unguarded, so an absent link is a \<open>TypeError\<close> naming the property that
  was read from \<open>undefined\<close>; an absent or empty \<open>text\<close> becomes \<open>""\<close>.
\<close>

definition response_text :: "gen_result option \<Rightarrow> thrown + string" where
  "response_text res =
     (case res of
        None \<Rightarrow> Inl (type_error ''response'')
      | Some result \<Rightarrow>
          (case response result of
             None \<Rightarrow> Inl (type_error ''candidates'')
           | Some resp \<Rightarrow>
               (case candidates resp of
                  None \<Rightarrow> Inl (type_error ''0'')
                | Some [] \<Rightarrow> Inl (type_error ''content'')
                | Some (c # _) \<Rightarrow>
                    (case content c of
                       None \<Rightarrow> Inl (type_error ''parts'')
                     | Some ct \<Rightarrow>
                         (case parts ct of
                            None \<Rightarrow> Inl (type_error ''0'')
                          | Some [] \<Rightarrow> Inl (type_error ''text'')
                          | Some (p # _) \<Rightarrow>
                              Inr (case part_text p of None \<Rightarrow> [] | Some t \<Rightarrow> t))))))"

text \<open>
  The body of the step \<open>generate-insights-<industry>\<close>. Only the remote invocation
  is inside the retry wrapper (3 rounds, initial delay 2000); reading the text, cleaning,
  \<open>JSON.parse\<close> and the update follow it, and nothing in the body catches an error.
\<close>

definition generate_insights_step ::
  "remote \<Rightarrow> json_parse \<Rightarrow> (nat \<Rightarrow> int) \<Rightarrow> string \<Rightarrow> obj action" where
  "generate_insights_step rem parse clock industry w =
     (case inngest_retryWithBackoff (generateContent rem) 3 2000 w of
        (Inl t, w1) \<Rightarrow> (Inl t, w1)
      | (Inr res, w1) \<Rightarrow>
          (case response_text res of
             Inl t \<Rightarrow> (Inl t, w1)
           | Inr text \<Rightarrow>
               (case parse (cleanedText text) of
                  Inl e \<Rightarrow> (Inl (ThrownError e), w1)
                | Inr insights \<Rightarrow>
                    (case date_now clock w1 of
                       (lastUpdated, w2) \<Rightarrow>
                         (case date_now clock w2 of
                            (now, w3) \<Rightarrow>
                              (case db_update industry
                                      (set_prop ''nextUpdate'' (JDate (now + week_ms))
                                         (set_prop ''lastUpdated'' (JDate lastUpdated)
                                            (spread (Some insights) [])))
                                      w3 of
                                 (Inl t, w4) \<Rightarrow> (Inl t, w4)
                               | (Inr row, w4) \<Rightarrow>
                                   (Inr [(''industry'', JStr industry),
                                         (''status'', JStr ''updated'')], w4)))))))"

text \<open>The \<open>for ... of\<close> loop over the industries: the first step that throws ends the run.\<close>

fun generate_insights_steps ::
  "remote \<Rightarrow> json_parse \<Rightarrow> (nat \<Rightarrow> int) \<Rightarrow> string list \<Rightarrow> unit action" where
  "generate_insights_steps rem parse clock [] w = (Inr (), w)"
| "generate_insights_steps rem parse clock (industry # rest) w =
     (case generate_insights_step rem parse clock industry w of
        (Inl t, w1) \<Rightarrow> (Inl t, w1)
      | (Inr r, w1) \<Rightarrow> generate_insights_steps rem parse clock rest w1)"

definition generateIndustryInsights ::
  "remote \<Rightarrow> json_parse \<Rightarrow> (nat \<Rightarrow> int) \<Rightarrow> obj action" where
  "generateIndustryInsights rem parse clock w =
     (let industries = map fst (rows w) in
      case generate_insights_steps rem parse clock industries w of
        (Inl t, w1) \<Rightarrow> (Inl t, w1)
      | (Inr u, w1) \<Rightarrow>
          (Inr [(''message'', JStr ''Industry insights generated successfully''),
                (''count'', JNum (of_nat (length industries)))], w1))"

section \<open>The dashboard's read: getIndustryInsights\<close>

text \<open>
  The signed-in user as \<open>db.user.findUnique\<close> returns it, with the two properties
  the code reads, \<open>user.industry\<close> and \<open>user.industryInsight\<close>. \<open>auth\<close> is the \<open>userId\<close> of the session, if any.
\<close>

record user =
  user_industry :: string
  user_industryInsight :: "obj option"

definition getIndustryInsights ::
  "string option \<Rightarrow> (string \<Rightarrow> user option) \<Rightarrow> remote \<Rightarrow> json_parse \<Rightarrow> (nat \<Rightarrow> int) \<Rightarrow> obj action" where
  "getIndustryInsights auth find_user rem parse clock w =
     (case auth of
        None \<Rightarrow> (Inl (new_Error ''Unauthorized''), w)
      | Some userId \<Rightarrow>
          (case find_user userId of
             None \<Rightarrow> (Inl (new_Error ''User not found''), w)
           | Some user \<Rightarrow>
               (case user_industryInsight user of
                  Some insight \<Rightarrow> (Inr insight, w)
                | None \<Rightarrow>
                    (case generateAIInsights (user_industry user) rem parse w of
                       (Inl t, w1) \<Rightarrow> (Inl t, w1)
                     | (Inr insights, w1) \<Rightarrow>
                         (case date_now clock w1 of
                            (now, w2) \<Rightarrow>
                              db_create
                                (set_prop ''nextUpdate'' (JDate (now + week_ms))
                                   (spread insights [(''industry'', JStr (user_industry user))]))
                                w2)))))"

section \<open>The interactive action: improveWithAI\<close>

definition maxRetries :: nat where
  "maxRetries = 3"

text \<open>
  \<open>candidates && candidates[0]?.finishReason === "SAFETY"\<close>: the first candidate, when
  there is one, reports that the reply was blocked.
\<close>

definition is_safety_block :: "gen_response \<Rightarrow> bool" where
  "is_safety_block resp =
     (case candidates resp of
        Some (c # _) \<Rightarrow> finishReason c = Some ''SAFETY''
      | _ \<Rightarrow> False)"

text \<open>
  What an invocation of the remote did counts as blocked when it resolved with a
  response whose first candidate reports SAFETY.
\<close>

definition blocked :: "thrown + gen_result \<Rightarrow> bool" where
  "blocked x = (case x of Inl t \<Rightarrow> False
     | Inr res \<Rightarrow> (case response res of None \<Rightarrow> False | Some resp \<Rightarrow> is_safety_block resp))"

text \<open>
  The body of the \<open>try\<close> block of one attempt: the remote invocation, the check for a
  missing response, the check for a SAFETY finish reason of the first candidate, and the
  check that the trimmed text is not empty.
\<close>

definition improve_attempt :: "remote \<Rightarrow> string action" where
  "improve_attempt rem w =
     (case generateContent rem w of
        (Inl t, w1) \<Rightarrow> (Inl t, w1)
      | (Inr result, w1) \<Rightarrow>
          (case response result of
             None \<Rightarrow> (Inl (new_Error ''No response received from AI''), w1)
           | Some resp \<Rightarrow>
               if is_safety_block resp
               then (Inl (new_Error ''Content was blocked by safety filters. Please try rephrasing.''), w1)
               else
                 (case text_fn resp of
                    Inl t \<Rightarrow> (Inl t, w1)
                  | Inr None \<Rightarrow> (Inl (new_Error ''AI returned empty response''), w1)
                  | Inr (Some text) \<Rightarrow>
                      let improvedContent = js_trim text in
                      if improvedContent = []
                      then (Inl (new_Error ''AI returned empty response''), w1)
                      else (Inr improvedContent, w1))))"

text \<open>
  What follows the loop: \<open>lastError?.message || "Unknown error"\<close> is mapped to the
  user-facing error by the substrings it contains, tested in the source's order.
\<close>

definition errorMessage :: "thrown option \<Rightarrow> string" where
  "errorMessage lastError =
     (case lastError of
        Some (ThrownError e) \<Rightarrow>
          (case message e of
             Some m \<Rightarrow> if m = [] then ''Unknown error'' else m
           | None \<Rightarrow> ''Unknown error'')
      | _ \<Rightarrow> ''Unknown error'')"

definition final_error :: "thrown option \<Rightarrow> thrown" where
  "final_error lastError =
     (let m = errorMessage lastError in
      if js_includes m ''safety filters''
      then new_Error ''Content was flagged by safety filters. Please rephrase your description.''
      else if js_includes m ''quota'' \<or> js_includes m ''rate limit''
      then new_Error ''API rate limit reached. Please wait a moment and try again.''
      else if js_includes m ''network'' \<or> js_includes m ''fetch''
      then new_Error ''Network error. Please check your connection and try again.''
      else new_Error ''Failed to improve content. Please try again.'')"

text \<open>
  The retry loop, \<open>attempt\<close> running from 1 to \<open>maxRetries\<close>. Every caught error is
  handled alike: it is stored, its \<open>message\<close> is read for the log line (a \<open>TypeError\<close>
  escaping the function when the caught value is nullish), the loop is left on the last
  attempt, and otherwise the next attempt follows a sleep of \<open>1000 * attempt\<close>.
\<close>

function improve_loop :: "remote \<Rightarrow> nat \<Rightarrow> thrown option \<Rightarrow> string action" where
  "improve_loop rem attempt lastError w =
     (if attempt \<le> maxRetries then
        (case improve_attempt rem w of
           (Inr improvedContent, w1) \<Rightarrow> (Inr improvedContent, w1)
         | (Inl error, w1) \<Rightarrow>
             (case error of
                ThrownNullish n \<Rightarrow> (Inl (type_error_of n ''message''), w1)
              | ThrownError e \<Rightarrow>
                  if attempt = maxRetries then (Inl (final_error (Some error)), w1)
                  else improve_loop rem (Suc attempt) (Some error)
                         (sleep (1000 * int attempt) w1)))
      else (Inl (final_error lastError), w))"
  by pat_completeness auto
termination
  by (relation "measure (\<lambda>(rem, attempt, lastError, w). Suc maxRetries - attempt)") auto

text \<open>
  \<open>improveWithAI({ current, type })\<close>: \<open>current\<close> is a string or absent; \<open>type\<close> only
  enters the prompt text. The input check \<open>!current || current.trim().length === 0\<close>
  comes after the session and user checks and before the loop.
\<close>

definition improveWithAI ::
  "string option \<Rightarrow> (string \<Rightarrow> user option) \<Rightarrow> remote \<Rightarrow> string option \<Rightarrow> string action" where
  "improveWithAI auth find_user rem current w =
     (case auth of
        None \<Rightarrow> (Inl (new_Error ''Unauthorized''), w)
      | Some userId \<Rightarrow>
          (case find_user userId of
             None \<Rightarrow> (Inl (new_Error ''User not found''), w)
           | Some user \<Rightarrow>
               if (case current of None \<Rightarrow> True
                   | Some c \<Rightarrow> c = [] \<or> length (js_trim c) = 0)
               then (Inl (new_Error ''Please provide content to improve''), w)
               else improve_loop rem 1 None w))"

section \<open>Sample inputs\<close>

text \<open>
  Concrete worlds, replies and errors on which the statements below are exercised: a
  fresh world, a world whose table has one row, a reply carrying a given text, a reply
  blocked for safety, HTTP errors of status 429 and 503 with different messages, and a
  \<open>JSON.parse\<close> that accepts only the text \<open>{}\<close>.
\<close>

definition fresh :: world where
  "fresh = \<lparr>calls = 0, sleeps = [], ticks = 0, rows = []\<rparr>"

definition one_row :: world where
  "one_row = \<lparr>calls = 0, sleeps = [], ticks = 0,
               rows = [(''tech'', [(''industry'', JStr ''tech'')])]\<rparr>"

definition reply :: "string \<Rightarrow> gen_result" where
  "reply t =
     \<lparr>response = Some
        \<lparr>candidates = Some
           [\<lparr>finishReason = Some ''STOP'',
             content = Some \<lparr>parts = Some [\<lparr>part_text = Some t\<rparr>]\<rparr>\<rparr>],
         text_fn = Inr (Some t)\<rparr>\<rparr>"

definition blocked_reply :: gen_result where
  "blocked_reply =
     \<lparr>response = Some
        \<lparr>candidates = Some [\<lparr>finishReason = Some ''SAFETY'', content = None\<rparr>],
         text_fn = Inr (Some [])\<rparr>\<rparr>"

definition too_many_requests :: js_error where
  "too_many_requests = \<lparr>status = Some 429, message = Some ''Too Many Requests''\<rparr>"

definition quota_exceeded :: js_error where
  "quota_exceeded =
     \<lparr>status = Some 429,
      message = Some ''[429 Too Many Requests] Resource has been exhausted (e.g. check quota).''\<rparr>"

definition service_unavailable :: js_error where
  "service_unavailable =
     \<lparr>status = Some 503,
      message = Some ''[GoogleGenerativeAI Error]: Error fetching from https://generativelanguage.googleapis.com/v1beta/models/gemini-2.5-flash:generateContent: [503 Service Unavailable] Try again later.''\<rparr>"

definition model_overloaded :: js_error where
  "model_overloaded = \<lparr>status = Some 503, message = Some ''The model is overloaded''\<rparr>"

definition syntax_error :: js_error where
  "syntax_error = \<lparr>status = None, message = Some ''Unexpected token o in JSON at position 0''\<rparr>"

definition parse_braces :: json_parse where
  "parse_braces s = (if s = ''{}'' then Inr (JObj []) else Inl syntax_error)"

text \<open>A \<open>JSON.parse\<close> that rejects every text and quotes it in the error message.\<close>

definition parse_quoting :: json_parse where
  "parse_quoting s = Inl \<lparr>status = None, message = Some (''Unexpected token in JSON: '' @ s)\<rparr>"

definition known_user :: "string \<Rightarrow> user option" where
  "known_user userId = Some \<lparr>user_industry = ''tech'', user_industryInsight = None\<rparr>"

section \<open>Properties\<close>

subsection \<open>Unfolding the dashboard's retry loop\<close>

declare inngest_retry_loop.simps [simp del]
declare dashboard_retry_loop.simps [simp del]
declare improve_loop.simps [simp del]

lemma type_error_of_is_error: "\<exists>e. type_error_of n p = ThrownError e"
  by (cases n) (simp_all add: type_error_of_def type_error_def new_Error_def)

lemma dashboard_loop_done:
  "\<not> int i < m \<Longrightarrow> dashboard_retry_loop fn m d i w = (Inr None, w)"
  by (simp add: dashboard_retry_loop.simps [of fn m d i w])

lemma dashboard_loop_success:
  "int i < m \<Longrightarrow> fn w = (Inr v, w1) \<Longrightarrow>
   dashboard_retry_loop fn m d i w = (Inr (Some v), w1)"
  by (simp add: dashboard_retry_loop.simps [of fn m d i w])

lemma dashboard_loop_nullish:
  "int i < m \<Longrightarrow> fn w = (Inl (ThrownNullish n), w1) \<Longrightarrow>
   dashboard_retry_loop fn m d i w = (Inl (type_error_of n ''message''), w1)"
  by (simp add: dashboard_retry_loop.simps [of fn m d i w])

lemma dashboard_loop_rethrow:
  "int i < m \<Longrightarrow> fn w = (Inl (ThrownError e), w1) \<Longrightarrow>
   int i = m - 1 \<or> \<not> isOverloaded e \<Longrightarrow>
   dashboard_retry_loop fn m d i w = (Inl (ThrownError e), w1)"
  by (simp add: dashboard_retry_loop.simps [of fn m d i w])

lemma dashboard_loop_retry:
  "int i < m \<Longrightarrow> fn w = (Inl (ThrownError e), w1) \<Longrightarrow>
   int i \<noteq> m - 1 \<Longrightarrow> isOverloaded e \<Longrightarrow>
   dashboard_retry_loop fn m d i w =
     dashboard_retry_loop fn m d (Suc i) (sleep (d * 2 ^ i) w1)"
  by (simp add: dashboard_retry_loop.simps [of fn m d i w])

lemma dashboard_retry_loop_never_nullish:
  "dashboard_retry_loop fn m d i w = (Inl t, w') \<Longrightarrow> \<exists>e. t = ThrownError e"
proof (induction "nat (m - int i)" arbitrary: i w)
  case 0
  then have "\<not> int i < m" by simp
  with "0.prems" show ?case by (simp add: dashboard_loop_done)
next
  case (Suc n)
  then have lt: "int i < m" and n: "n = nat (m - int (Suc i))" by auto
  obtain r w1 where fw: "fn w = (r, w1)" by (cases "fn w")
  show ?case
  proof (cases r)
    case (Inr v)
    with Suc.prems lt fw show ?thesis by (simp add: dashboard_loop_success)
  next
    case (Inl error)
    show ?thesis
    proof (cases error)
      case (ThrownNullish nl)
      with Suc.prems lt fw Inl show ?thesis
        using type_error_of_is_error [of nl "''message''"]
        by (auto simp: dashboard_loop_nullish)
    next
      case (ThrownError e)
      show ?thesis
      proof (cases "int i = m - 1 \<or> \<not> isOverloaded e")
        case True
        with Suc.prems lt fw Inl ThrownError show ?thesis
          by (auto simp: dashboard_loop_rethrow)
      next
        case False
        with Suc.prems lt fw Inl ThrownError
        have "dashboard_retry_loop fn m d (Suc i) (sleep (d * 2 ^ i) w1) = (Inl t, w')"
          by (simp add: dashboard_loop_retry)
        with Suc.hyps(1) [OF n] show ?thesis .
      qed
    qed
  qed
qed

lemma dashboard_retry_loop_value:
  "dashboard_retry_loop fn m d i w = (Inr r, w') \<Longrightarrow> int i < m \<Longrightarrow>
     \<exists>v w1. r = Some v \<and> fst (fn w1) = Inr v"
proof (induction "nat (m - int i)" arbitrary: i w)
  case 0
  then show ?case by simp
next
  case (Suc n)
  then have lt: "int i < m" and n: "n = nat (m - int (Suc i))" by auto
  obtain x w1 where fw: "fn w = (x, w1)" by (cases "fn w")
  show ?case
  proof (cases x)
    case (Inr v)
    with Suc.prems lt fw have "r = Some v" by (simp add: dashboard_loop_success)
    moreover from fw Inr have "fst (fn w) = Inr v" by simp
    ultimately show ?thesis by blast
  next
    case (Inl error)
    show ?thesis
    proof (cases error)
      case (ThrownNullish nl)
      with Suc.prems lt fw Inl show ?thesis
        by (simp add: dashboard_loop_nullish)
    next
      case (ThrownError e)
      show ?thesis
      proof (cases "int i = m - 1 \<or> \<not> isOverloaded e")
        case True
        with Suc.prems lt fw Inl ThrownError show ?thesis
          by (simp add: dashboard_loop_rethrow)
      next
        case False
        with Suc.prems lt fw Inl ThrownError
        have rec: "dashboard_retry_loop fn m d (Suc i) (sleep (d * 2 ^ i) w1) = (Inr r, w')"
          by (simp add: dashboard_loop_retry)
        from False lt have "int (Suc i) < m" by simp
        with Suc.hyps(1) [OF n rec] show ?thesis .
      qed
    qed
  qed
qed

subsection \<open>The on-demand path always returns a value\<close>

lemma insights_attempt_value:
  assumes "fst (insights_attempt rem parse w1) = Inr v"
  shows "\<exists>k res resp text. rem k = Inr res \<and> response res = Some resp \<and>
           text_fn resp = Inr (Some text) \<and> parse (cleanedText text) = Inr v"
proof -
  from assms obtain res where r: "rem (calls w1) = Inr res"
    by (cases "rem (calls w1)") (auto simp: insights_attempt_def generateContent_def)
  with assms obtain resp where p: "response res = Some resp"
    by (cases "response res") (auto simp: insights_attempt_def generateContent_def)
  with assms r obtain body where t: "text_fn resp = Inr (Some body)"
    by (cases "text_fn resp")
       (auto simp: insights_attempt_def generateContent_def split: option.splits)
  with assms r p have "parse (cleanedText body) = Inr v"
    by (cases "parse (cleanedText body)")
       (auto simp: insights_attempt_def generateContent_def)
  with r p t show ?thesis by blast
qed

text \<open>
  C2. For every industry, every behaviour of the remote generator and every behaviour of
  \<open>JSON.parse\<close>, \<open>generateAIInsights\<close> returns a value and never throws; the value
  is either the static fallback record or the result of parsing the cleaned text of one
  of the remote replies.
\<close>

theorem generateAIInsights_never_throws:
  "\<exists>v w'. generateAIInsights industry rem parse w = (Inr (Some v), w') \<and>
     (v = getFallbackInsights industry \<or>
      (\<exists>k res resp text. rem k = Inr res \<and> response res = Some resp \<and>
         text_fn resp = Inr (Some text) \<and> parse (cleanedText text) = Inr v))"
proof -
  obtain x w1 where loop:
    "dashboard_retry_loop (insights_attempt rem parse) 3 1000 0 w = (x, w1)"
    by (cases "dashboard_retry_loop (insights_attempt rem parse) 3 1000 0 w")
  show ?thesis
  proof (cases x)
    case (Inl t)
    with loop obtain e where "t = ThrownError e"
      by (auto dest: dashboard_retry_loop_never_nullish)
    with loop Inl
    have "generateAIInsights industry rem parse w =
            (Inr (Some (getFallbackInsights industry)), w1)"
      by (simp add: generateAIInsights_def dashboard_retryWithBackoff_def)
    then show ?thesis by blast
  next
    case (Inr r)
    with loop obtain v w2 where v: "r = Some v"
      and a: "fst (insights_attempt rem parse w2) = Inr v"
      using dashboard_retry_loop_value [of "insights_attempt rem parse" 3 1000 0 w r w1]
      by auto
    from loop Inr v
    have "generateAIInsights industry rem parse w = (Inr (Some v), w1)"
      by (simp add: generateAIInsights_def dashboard_retryWithBackoff_def)
    with insights_attempt_value [OF a] show ?thesis by blast
  qed
qed

subsection \<open>Degenerate bounds and blank input\<close>

lemma inngest_loop_done:
  "\<not> int i < m \<Longrightarrow> inngest_retry_loop fn m d i w = (Inr None, w)"
  by (simp add: inngest_retry_loop.simps [of fn m d i w])

text \<open>
  C9. For every bound that is zero or negative, the scheduled job's
  \<open>retryWithBackoff\<close> returns \<open>undefined\<close> and leaves the world as it found it, so the
  wrapped call was not made; the job's next expression, which reads \<open>res.response\<close>,
  then throws a \<open>TypeError\<close> for reading a property of \<open>undefined\<close>.
\<close>

theorem inngest_retryWithBackoff_no_rounds:
  assumes "n \<le> 0"
  shows "inngest_retryWithBackoff fn n d w = (Inr None, w) \<and>
         response_text None = Inl (type_error ''response'')"
  using assms
  by (simp add: inngest_retryWithBackoff_def inngest_loop_done response_text_def)

theorem inngest_retryWithBackoff_no_rounds_witness:
  "inngest_retryWithBackoff
     (generateContent (\<lambda>k. Inr \<lparr>response = None\<rparr>)) 0 2000
     \<lparr>calls = 0, sleeps = [], ticks = 0, rows = []\<rparr>
   = (Inr None, \<lparr>calls = 0, sleeps = [], ticks = 0, rows = []\<rparr>) \<and>
   response_text None = Inl (type_error ''response'')"
  by (rule inngest_retryWithBackoff_no_rounds) simp

lemma js_trim_all_space:
  assumes "\<forall>ch \<in> set c. is_js_space ch"
  shows "js_trim c = []"
proof -
  from assms have d: "dropWhile is_js_space c = []" by (induction c) auto
  show ?thesis unfolding js_trim_def d by simp
qed

text \<open>
  C10, amended. For every signed-in caller, when \<open>current\<close> is absent, empty or consists
  of white space only, \<open>improveWithAI\<close> throws before any remote invocation and leaves
  the world unchanged (no invocation, no sleep). The error is "Please provide content to
  improve" when the caller's user record exists; the check for the record comes first,
  and without a record the error is "User not found".
\<close>

theorem improveWithAI_rejects_blank_input:
  assumes "auth = Some userId"
    and "current = None \<or> (\<exists>c. current = Some c \<and> (\<forall>ch \<in> set c. is_js_space ch))"
  shows "improveWithAI auth find_user rem current w =
           (Inl (new_Error (if find_user userId = None then ''User not found''
                            else ''Please provide content to improve'')), w)"
  using assms
  by (cases "find_user userId") (auto simp: improveWithAI_def js_trim_all_space)

theorem improveWithAI_rejects_blank_input_witness:
  "improveWithAI (Some ''user_1'') known_user (\<lambda>k. Inr (reply ''Led a team''))
     (Some [CHR 0x20, CHR 0x09, CHR 0xA0, CHR 0x0A]) fresh
   = (Inl (new_Error ''Please provide content to improve''), fresh)
   \<and> improveWithAI (Some ''user_1'') (\<lambda>userId. None) (\<lambda>k. Inr (reply ''Led a team''))
     None fresh
   = (Inl (new_Error ''User not found''), fresh)"
  using improveWithAI_rejects_blank_input
      [of "Some ''user_1''" "''user_1''" "Some [CHR 0x20, CHR 0x09, CHR 0xA0, CHR 0x0A]"
          known_user "\<lambda>k. Inr (reply ''Led a team'')" fresh]
    improveWithAI_rejects_blank_input
      [of "Some ''user_1''" "''user_1''" None "\<lambda>userId. None"
          "\<lambda>k. Inr (reply ''Led a team'')" fresh]
  by (simp add: is_js_space_def known_user_def)

theorem improveWithAI_unknown_user_counterexample:
  "improveWithAI (Some ''user_1'') (\<lambda>userId. None) (\<lambda>k. Inr (reply ''Led a team''))
     (Some [CHR 0x20, CHR 0x20]) fresh
   = (Inl (new_Error ''User not found''), fresh)"
  by code_simp

subsection \<open>Cleaning a fenced reply\<close>








subsection \<open>Runs of the retry loops\<close>

lemma improveWithAI_enters_loop:
  assumes "auth = Some userId" and "find_user userId = Some u"
    and "current = Some c" and "js_trim c \<noteq> []"
  shows "improveWithAI auth find_user rem current w = improve_loop rem 1 None w"
proof -
  from assms(4) have "c \<noteq> []" by (auto simp: js_trim_def)
  with assms show ?thesis by (simp add: improveWithAI_def)
qed

lemma improve_loop_all_fail:
  assumes "\<forall>k. rem k = Inl (ThrownError e)"
  shows "improve_loop rem 1 None w =
           (Inl (final_error (Some (ThrownError e))),
            w\<lparr>calls := calls w + 3, sleeps := sleeps w @ [1000, 2000]\<rparr>)"
  by (simp add: improve_loop.simps maxRetries_def improve_attempt_def generateContent_def
        sleep_def assms)

lemma final_error_rate_limit:
  assumes "message e = Some m"
    and "js_includes m ''quota'' \<or> js_includes m ''rate limit''"
    and "\<not> js_includes m ''safety filters''"
  shows "final_error (Some (ThrownError e)) =
           new_Error ''API rate limit reached. Please wait a moment and try again.''"
proof -
  from assms(2) have "m \<noteq> []" by auto
  with assms show ?thesis by (simp add: final_error_def errorMessage_def)
qed

lemma generateAIInsights_all_fail:
  assumes "\<forall>k. rem k = Inl (ThrownError e)"
  shows "generateAIInsights industry rem parse w =
           (Inr (Some (getFallbackInsights industry)),
            if isOverloaded e
            then w\<lparr>calls := calls w + 3, sleeps := sleeps w @ [1000, 2000]\<rparr>
            else w\<lparr>calls := Suc (calls w)\<rparr>)"
  by (simp add: generateAIInsights_def dashboard_retryWithBackoff_def
        dashboard_retry_loop.simps insights_attempt_def generateContent_def sleep_def assms)

text \<open>
  C3, amended. Let every remote invocation fail with the same error of status 429. The
  scheduled job's \<open>retryWithBackoff\<close> with 3 rounds and initial delay 1000 makes exactly
  3 invocations, sleeps 1000 and 2000 between them and rethrows the error.
  \<open>generateAIInsights\<close> returns the static fallback: after 3 invocations with sleeps
  1000 and 2000 when the error's message contains \<open>overloaded\<close> or \<open>503\<close>, and after a
  single invocation without any sleep otherwise. \<open>improveWithAI\<close>, called by a known
  user with non-blank content, makes 3 invocations with sleeps 1000 and 2000 and throws
  the user-facing error chosen from the message, which is the rate-limit error when the
  message contains \<open>quota\<close> or \<open>rate limit\<close> and not \<open>safety filters\<close>.
\<close>

theorem always_429_outcomes:
  assumes "\<forall>k. rem k = Inl (ThrownError e)" and "status e = Some 429"
  shows "inngest_retryWithBackoff (generateContent rem) 3 1000 w =
           (Inl (ThrownError e), w\<lparr>calls := calls w + 3, sleeps := sleeps w @ [1000, 2000]\<rparr>)
       \<and> generateAIInsights industry rem parse w =
           (Inr (Some (getFallbackInsights industry)),
            if isOverloaded e
            then w\<lparr>calls := calls w + 3, sleeps := sleeps w @ [1000, 2000]\<rparr>
            else w\<lparr>calls := Suc (calls w)\<rparr>)
       \<and> (auth = Some userId \<and> find_user userId = Some u \<and> current = Some c \<and> js_trim c \<noteq> []
            \<longrightarrow> improveWithAI auth find_user rem current w =
                  (Inl (final_error (Some (ThrownError e))),
                   w\<lparr>calls := calls w + 3, sleeps := sleeps w @ [1000, 2000]\<rparr>))
       \<and> (message e = Some m \<and> (js_includes m ''quota'' \<or> js_includes m ''rate limit'')
              \<and> \<not> js_includes m ''safety filters''
            \<longrightarrow> final_error (Some (ThrownError e)) =
                  new_Error ''API rate limit reached. Please wait a moment and try again.'')"
proof -
  note all = assms(1)
  have "inngest_retryWithBackoff (generateContent rem) 3 1000 w =
          (Inl (ThrownError e), w\<lparr>calls := calls w + 3, sleeps := sleeps w @ [1000, 2000]\<rparr>)"
    using assms(2)
    by (simp add: inngest_retryWithBackoff_def inngest_retry_loop.simps generateContent_def
          sleep_def all)
  moreover note generateAIInsights_all_fail [OF all, where industry = industry and parse = parse and w = w]
  moreover have "auth = Some userId \<and> find_user userId = Some u \<and> current = Some c \<and> js_trim c \<noteq> []
      \<longrightarrow> improveWithAI auth find_user rem current w =
            (Inl (final_error (Some (ThrownError e))),
             w\<lparr>calls := calls w + 3, sleeps := sleeps w @ [1000, 2000]\<rparr>)"
    using improveWithAI_enters_loop [of auth userId find_user u current c rem w]
      improve_loop_all_fail [OF all, where w = w] by auto
  moreover have "message e = Some m \<and> (js_includes m ''quota'' \<or> js_includes m ''rate limit'')
        \<and> \<not> js_includes m ''safety filters''
      \<longrightarrow> final_error (Some (ThrownError e)) =
            new_Error ''API rate limit reached. Please wait a moment and try again.''"
    using final_error_rate_limit [of e m] by blast
  ultimately show ?thesis by blast
qed

theorem always_429_outcomes_witness:
  "inngest_retryWithBackoff (generateContent (\<lambda>k. Inl (ThrownError quota_exceeded))) 3 1000 fresh =
     (Inl (ThrownError quota_exceeded), fresh\<lparr>calls := 3, sleeps := [1000, 2000]\<rparr>)
   \<and> generateAIInsights ''tech'' (\<lambda>k. Inl (ThrownError quota_exceeded)) parse_braces fresh =
     (Inr (Some (getFallbackInsights ''tech'')), fresh\<lparr>calls := 1\<rparr>)
   \<and> improveWithAI (Some ''user_1'') known_user (\<lambda>k. Inl (ThrownError quota_exceeded))
        (Some ''Led a team'') fresh =
     (Inl (new_Error ''API rate limit reached. Please wait a moment and try again.''),
      fresh\<lparr>calls := 3, sleeps := [1000, 2000]\<rparr>)"
  using always_429_outcomes [of "\<lambda>k. Inl (ThrownError quota_exceeded)" quota_exceeded fresh
      "''tech''" parse_braces "Some ''user_1''" "''user_1''" known_user
      "\<lparr>user_industry = ''tech'', user_industryInsight = None\<rparr>" "Some ''Led a team''"
      "''Led a team''"
      "''[429 Too Many Requests] Resource has been exhausted (e.g. check quota).''"]
  by (simp add: quota_exceeded_def fresh_def known_user_def isOverloaded_def js_trim_def
        is_js_space_def)

theorem always_429_single_attempt_counterexample:
  "generateAIInsights ''tech'' (\<lambda>k. Inl (ThrownError too_many_requests)) parse_braces fresh =
     (Inr (Some (getFallbackInsights ''tech'')),
      \<lparr>calls = 1, sleeps = [], ticks = 0, rows = []\<rparr>)"
  by code_simp

lemma js_includes_sublist: "js_includes s sub = sublist sub s"
  by (induction s) (simp_all add: sublist_Cons_right)

lemma http_failure_503_isOverloaded:
  assumes "http_failure 503 e"
  shows "isOverloaded e"
proof -
  have n: "show_nat 503 = ''503''" by code_simp
  from assms obtain m where m: "message e = Some m" and "js_includes m (''['' @ ''503'' @ '' '')"
    by (cases "message e") (auto simp: http_failure_def n simp del: show_nat.simps)
  then have "sublist (''['' @ ''503'' @ '' '') m" by (simp only: js_includes_sublist)
  moreover have "sublist ''503'' (''['' @ ''503'' @ '' '')" by (rule sublist_appendI)
  ultimately have "sublist ''503'' m" by (rule sublist_order.order.trans [rotated])
  with m show ?thesis by (simp add: isOverloaded_def js_includes_sublist)
qed

text \<open>
  C6. Let the remote call fail with HTTP status 503 on the first and the second
  invocation and resolve on the third, with 3 rounds allowed. Both retry wrappers, given
  the remote call as their function, return the third invocation's result after exactly
  3 invocations, having slept the delay times 1 and the delay times 2 in between. The
  dashboard's wrapper does the same around the function \<open>generateAIInsights\<close> hands it,
  returning the parsed value when the third reply parses.
\<close>

theorem third_attempt_succeeds:
  assumes "rem (calls w) = Inl (ThrownError e1)"
    and "rem (Suc (calls w)) = Inl (ThrownError e2)"
    and "rem (Suc (Suc (calls w))) = Inr res"
    and "http_failure 503 e1" and "http_failure 503 e2"
  shows "inngest_retryWithBackoff (generateContent rem) 3 d w =
           (Inr (Some res), w\<lparr>calls := calls w + 3, sleeps := sleeps w @ [d * 1, d * 2]\<rparr>)
       \<and> dashboard_retryWithBackoff (generateContent rem) 3 d w =
           (Inr (Some res), w\<lparr>calls := calls w + 3, sleeps := sleeps w @ [d * 1, d * 2]\<rparr>)
       \<and> (response res = Some resp \<and> text_fn resp = Inr (Some t) \<and>
            parse (cleanedText t) = Inr v \<longrightarrow>
          dashboard_retryWithBackoff (insights_attempt rem parse) 3 d w =
            (Inr (Some v), w\<lparr>calls := calls w + 3, sleeps := sleeps w @ [d * 1, d * 2]\<rparr>))"
proof -
  from assms(4,5) have st: "status e1 = Some 503" "status e2 = Some 503"
    by (simp_all add: http_failure_def)
  from assms(4,5) have ov: "isOverloaded e1" "isOverloaded e2"
    by (simp_all add: http_failure_503_isOverloaded)
  have "inngest_retryWithBackoff (generateContent rem) 3 d w =
      (Inr (Some res), w\<lparr>calls := calls w + 3, sleeps := sleeps w @ [d * 1, d * 2]\<rparr>)"
    using st
    by (simp add: inngest_retryWithBackoff_def inngest_retry_loop.simps generateContent_def
          sleep_def assms(1,2,3))
  moreover have "dashboard_retryWithBackoff (generateContent rem) 3 d w =
      (Inr (Some res), w\<lparr>calls := calls w + 3, sleeps := sleeps w @ [d * 1, d * 2]\<rparr>)"
    using ov
    by (simp add: dashboard_retryWithBackoff_def dashboard_retry_loop.simps
          generateContent_def sleep_def assms(1,2,3))
  moreover have "response res = Some resp \<and> text_fn resp = Inr (Some t) \<and>
        parse (cleanedText t) = Inr v \<longrightarrow>
      dashboard_retryWithBackoff (insights_attempt rem parse) 3 d w =
        (Inr (Some v), w\<lparr>calls := calls w + 3, sleeps := sleeps w @ [d * 1, d * 2]\<rparr>)"
    using ov
    by (simp add: dashboard_retryWithBackoff_def dashboard_retry_loop.simps
          insights_attempt_def generateContent_def sleep_def assms(1,2,3))
  ultimately show ?thesis by blast
qed

theorem third_attempt_succeeds_witness:
  "inngest_retryWithBackoff
     (generateContent (\<lambda>k. if k < 2 then Inl (ThrownError service_unavailable) else Inr (reply ''{}'')))
     3 2000 fresh =
     (Inr (Some (reply ''{}'')), fresh\<lparr>calls := 3, sleeps := [2000, 4000]\<rparr>)
   \<and> dashboard_retryWithBackoff
     (generateContent (\<lambda>k. if k < 2 then Inl (ThrownError service_unavailable) else Inr (reply ''{}'')))
     3 2000 fresh =
     (Inr (Some (reply ''{}'')), fresh\<lparr>calls := 3, sleeps := [2000, 4000]\<rparr>)
   \<and> dashboard_retryWithBackoff
     (insights_attempt
        (\<lambda>k. if k < 2 then Inl (ThrownError service_unavailable) else Inr (reply ''{}''))
        parse_braces)
     3 2000 fresh =
     (Inr (Some (JObj [])), fresh\<lparr>calls := 3, sleeps := [2000, 4000]\<rparr>)"
proof -
  have h: "http_failure 503 service_unavailable" by code_simp
  have c: "cleanedText ''{}'' = ''{}''" by code_simp
  show ?thesis
    using third_attempt_succeeds
      [where rem = "\<lambda>k. if k < 2 then Inl (ThrownError service_unavailable) else Inr (reply ''{}'')"
         and w = fresh and ?e1.0 = service_unavailable and ?e2.0 = service_unavailable
         and res = "reply ''{}''"
         and resp = "\<lparr>candidates = Some [\<lparr>finishReason = Some ''STOP'',
               content = Some \<lparr>parts = Some [\<lparr>part_text = Some ''{}''\<rparr>]\<rparr>\<rparr>],
            text_fn = Inr (Some ''{}'')\<rparr>"
         and t = "''{}''" and parse = parse_braces and v = "JObj []" and d = 2000]
      h c
    by (simp add: fresh_def reply_def parse_braces_def)
qed

lemma improve_attempt_ok:
  assumes "rem (calls w) = Inr res" and "response res = Some resp"
    and "\<not> is_safety_block resp" and "text_fn resp = Inr (Some t)" and "js_trim t \<noteq> []"
  shows "improve_attempt rem w = (Inr (js_trim t), w\<lparr>calls := Suc (calls w)\<rparr>)"
  using assms by (simp add: improve_attempt_def generateContent_def)

lemma improve_attempt_blocked:
  assumes "blocked (rem (calls w))"
  shows "improve_attempt rem w =
           (Inl (new_Error ''Content was blocked by safety filters. Please try rephrasing.''),
            w\<lparr>calls := Suc (calls w)\<rparr>)"
  using assms
  by (auto simp: blocked_def improve_attempt_def generateContent_def split: sum.splits option.splits)

lemma final_error_blocked:
  "final_error (Some (new_Error ''Content was blocked by safety filters. Please try rephrasing.'')) =
     new_Error ''Content was flagged by safety filters. Please rephrase your description.''"
  by (simp add: final_error_def errorMessage_def new_Error_def)

text \<open>
  C4, amended. In \<open>improveWithAI\<close> a reply blocked for safety is handled like any other
  failed attempt. For a known user with non-blank content whose first attempt is blocked:
  the function sleeps 1000 and invokes the remote again; when that second reply is
  usable its trimmed text is returned after 2 invocations; when the second and third
  replies are blocked too, the call fails after exactly 3 invocations and sleeps of 1000
  and 2000 with the safety-filter error.
\<close>

theorem safety_block_is_retried:
  assumes "auth = Some userId" and "find_user userId = Some u"
    and "current = Some c" and "js_trim c \<noteq> []"
    and "blocked (rem (calls w))"
  shows "(rem (Suc (calls w)) = Inr res \<and> response res = Some resp \<and> \<not> is_safety_block resp
            \<and> text_fn resp = Inr (Some t) \<and> js_trim t \<noteq> [] \<longrightarrow>
          improveWithAI auth find_user rem current w =
            (Inr (js_trim t), w\<lparr>calls := calls w + 2, sleeps := sleeps w @ [1000]\<rparr>))
       \<and> (blocked (rem (Suc (calls w))) \<and> blocked (rem (Suc (Suc (calls w)))) \<longrightarrow>
          improveWithAI auth find_user rem current w =
            (Inl (new_Error ''Content was flagged by safety filters. Please rephrase your description.''),
             w\<lparr>calls := calls w + 3, sleeps := sleeps w @ [1000, 2000]\<rparr>))"
proof -
  have loop: "improveWithAI auth find_user rem current w = improve_loop rem 1 None w"
    using assms(1-4) by (rule improveWithAI_enters_loop)
  let ?w1 = "sleep 1000 (w\<lparr>calls := Suc (calls w)\<rparr>)"
  have step1: "improve_loop rem 1 None w =
      improve_loop rem 2
        (Some (new_Error ''Content was blocked by safety filters. Please try rephrasing.'')) ?w1"
    using improve_attempt_blocked [of rem w, OF assms(5)]
    by (subst improve_loop.simps) (simp add: maxRetries_def new_Error_def numeral_2_eq_2 numeral_3_eq_3)
  show ?thesis
  proof (intro conjI impI)
    assume a: "rem (Suc (calls w)) = Inr res \<and> response res = Some resp \<and> \<not> is_safety_block resp
            \<and> text_fn resp = Inr (Some t) \<and> js_trim t \<noteq> []"
    then have "improve_attempt rem ?w1 = (Inr (js_trim t), ?w1\<lparr>calls := Suc (calls ?w1)\<rparr>)"
      by (intro improve_attempt_ok [where res = res and resp = resp]) (simp_all add: sleep_def)
    then show "improveWithAI auth find_user rem current w =
            (Inr (js_trim t), w\<lparr>calls := calls w + 2, sleeps := sleeps w @ [1000]\<rparr>)"
      unfolding loop step1
      by (subst improve_loop.simps) (simp add: maxRetries_def sleep_def numeral_2_eq_2 numeral_3_eq_3)
  next
    assume b: "blocked (rem (Suc (calls w))) \<and> blocked (rem (Suc (Suc (calls w))))"
    let ?w2 = "sleep 2000 (?w1\<lparr>calls := Suc (calls ?w1)\<rparr>)"
    from b have a2: "improve_attempt rem ?w1 =
           (Inl (new_Error ''Content was blocked by safety filters. Please try rephrasing.''),
            ?w1\<lparr>calls := Suc (calls ?w1)\<rparr>)"
      by (intro improve_attempt_blocked) (simp add: sleep_def)
    from b have a3: "improve_attempt rem ?w2 =
           (Inl (new_Error ''Content was blocked by safety filters. Please try rephrasing.''),
            ?w2\<lparr>calls := Suc (calls ?w2)\<rparr>)"
      by (intro improve_attempt_blocked) (simp add: sleep_def)
    have step2: "improve_loop rem 2
        (Some (new_Error ''Content was blocked by safety filters. Please try rephrasing.'')) ?w1 =
      improve_loop rem 3
        (Some (new_Error ''Content was blocked by safety filters. Please try rephrasing.'')) ?w2"
      using a2 by (subst improve_loop.simps) (simp add: maxRetries_def new_Error_def numeral_2_eq_2 numeral_3_eq_3)
    have step3: "improve_loop rem 3
        (Some (new_Error ''Content was blocked by safety filters. Please try rephrasing.'')) ?w2 =
      (Inl (new_Error ''Content was flagged by safety filters. Please rephrase your description.''),
       ?w2\<lparr>calls := Suc (calls ?w2)\<rparr>)"
      using a3 final_error_blocked
      by (subst improve_loop.simps) (simp add: maxRetries_def new_Error_def numeral_2_eq_2 numeral_3_eq_3)
    show "improveWithAI auth find_user rem current w =
            (Inl (new_Error ''Content was flagged by safety filters. Please rephrase your description.''),
             w\<lparr>calls := calls w + 3, sleeps := sleeps w @ [1000, 2000]\<rparr>)"
      unfolding loop step1 step2 step3 by (simp add: sleep_def)
  qed
qed

theorem safety_block_is_retried_witness:
  "improveWithAI (Some ''user_1'') known_user
     (\<lambda>k. if k = 0 then Inr blocked_reply else Inr (reply ''Led a team of five''))
     (Some ''led team'') fresh =
     (Inr ''Led a team of five'', fresh\<lparr>calls := 2, sleeps := [1000]\<rparr>)
   \<and> improveWithAI (Some ''user_1'') known_user (\<lambda>k. Inr blocked_reply)
     (Some ''led team'') fresh =
     (Inl (new_Error ''Content was flagged by safety filters. Please rephrase your description.''),
      fresh\<lparr>calls := 3, sleeps := [1000, 2000]\<rparr>)"
  using safety_block_is_retried
      [of "Some ''user_1''" "''user_1''" known_user
          "\<lparr>user_industry = ''tech'', user_industryInsight = None\<rparr>" "Some ''led team''"
          "''led team''" "\<lambda>k. if k = 0 then Inr blocked_reply else Inr (reply ''Led a team of five'')"
          fresh "reply ''Led a team of five''"
          "\<lparr>candidates = Some [\<lparr>finishReason = Some ''STOP'',
               content = Some \<lparr>parts = Some [\<lparr>part_text = Some ''Led a team of five''\<rparr>]\<rparr>\<rparr>],
            text_fn = Inr (Some ''Led a team of five'')\<rparr>" "''Led a team of five''"]
    safety_block_is_retried
      [of "Some ''user_1''" "''user_1''" known_user
          "\<lparr>user_industry = ''tech'', user_industryInsight = None\<rparr>" "Some ''led team''"
          "''led team''" "\<lambda>k. Inr blocked_reply" fresh]
  by (simp add: known_user_def fresh_def blocked_def blocked_reply_def reply_def
        is_safety_block_def js_trim_def is_js_space_def)

theorem safety_block_three_attempts_counterexample:
  "calls (snd (improveWithAI (Some ''user_1'') known_user (\<lambda>k. Inr blocked_reply)
                 (Some ''led team'') fresh)) = 3
   \<and> sleeps (snd (improveWithAI (Some ''user_1'') known_user (\<lambda>k. Inr blocked_reply)
                 (Some ''led team'') fresh)) = [1000, 2000]"
  by code_simp

text \<open>
  C5, amended. A reply whose cleaned text \<open>JSON.parse\<close> rejects is not retried as such.
  In \<open>generateAIInsights\<close> the \<open>SyntaxError\<close> is judged like any other error, by its
  message: when the message contains neither \<open>overloaded\<close> nor \<open>503\<close> the loop ends at
  once and the fallback is returned after that single invocation; only when it contains
  one of them does the loop sleep 1000 and go on to its second round. In the scheduled
  job the parsing follows the retry wrapper, so the \<open>SyntaxError\<close> leaves the step after
  the one invocation that produced the text.
\<close>

theorem parse_failure_not_retried:
  assumes "parse (cleanedText t) = Inl e"
  shows "(rem (calls w) = Inr res \<and> response res = Some resp \<and> text_fn resp = Inr (Some t)
            \<and> \<not> isOverloaded e \<longrightarrow>
          generateAIInsights industry rem parse w =
            (Inr (Some (getFallbackInsights industry)), w\<lparr>calls := Suc (calls w)\<rparr>))
       \<and> (rem (calls w) = Inr res \<and> response res = Some resp \<and> text_fn resp = Inr (Some t)
            \<and> isOverloaded e \<longrightarrow>
          dashboard_retryWithBackoff (insights_attempt rem parse) 3 1000 w =
            dashboard_retry_loop (insights_attempt rem parse) 3 1000 1
              (sleep 1000 (w\<lparr>calls := Suc (calls w)\<rparr>)))
       \<and> (rem (calls w) = Inr res \<and> response_text (Some res) = Inr t \<longrightarrow>
          generate_insights_step rem parse clock industry w =
            (Inl (ThrownError e), w\<lparr>calls := Suc (calls w)\<rparr>))"
proof (intro conjI impI)
  assume "rem (calls w) = Inr res \<and> response res = Some resp \<and> text_fn resp = Inr (Some t)
            \<and> \<not> isOverloaded e"
  with assms show "generateAIInsights industry rem parse w =
            (Inr (Some (getFallbackInsights industry)), w\<lparr>calls := Suc (calls w)\<rparr>)"
    by (simp add: generateAIInsights_def dashboard_retryWithBackoff_def
          dashboard_retry_loop.simps [of _ _ _ 0] insights_attempt_def generateContent_def)
next
  assume "rem (calls w) = Inr res \<and> response res = Some resp \<and> text_fn resp = Inr (Some t)
            \<and> isOverloaded e"
  with assms show "dashboard_retryWithBackoff (insights_attempt rem parse) 3 1000 w =
            dashboard_retry_loop (insights_attempt rem parse) 3 1000 1
              (sleep 1000 (w\<lparr>calls := Suc (calls w)\<rparr>))"
    by (simp add: dashboard_retryWithBackoff_def
          dashboard_retry_loop.simps [of _ _ _ 0] insights_attempt_def generateContent_def)
next
  assume "rem (calls w) = Inr res \<and> response_text (Some res) = Inr t"
  with assms show "generate_insights_step rem parse clock industry w =
            (Inl (ThrownError e), w\<lparr>calls := Suc (calls w)\<rparr>)"
    by (simp add: generate_insights_step_def inngest_retryWithBackoff_def
          inngest_retry_loop.simps [of _ _ _ 0] generateContent_def)
qed

theorem parse_failure_not_retried_witness:
  "generateAIInsights ''tech'' (\<lambda>k. Inr (reply ''oops'')) parse_braces fresh =
     (Inr (Some (getFallbackInsights ''tech'')), fresh\<lparr>calls := 1\<rparr>)
   \<and> dashboard_retryWithBackoff (insights_attempt (\<lambda>k. Inr (reply ''overloaded'')) parse_quoting)
        3 1000 fresh =
      dashboard_retry_loop (insights_attempt (\<lambda>k. Inr (reply ''overloaded'')) parse_quoting)
        3 1000 1 (fresh\<lparr>calls := 1, sleeps := [1000]\<rparr>)
   \<and> generate_insights_step (\<lambda>k. Inr (reply ''oops'')) parse_braces (\<lambda>k. 0) ''tech'' one_row =
     (Inl (ThrownError syntax_error), one_row\<lparr>calls := 1\<rparr>)"
proof -
  have c: "cleanedText ''oops'' = ''oops''" "cleanedText ''overloaded'' = ''overloaded''"
    by code_simp+
  have o: "isOverloaded \<lparr>status = None, message = Some (''Unexpected token in JSON: '' @ ''overloaded'')\<rparr>"
    "\<not> isOverloaded syntax_error"
    by code_simp+
  show ?thesis
    using parse_failure_not_retried
        [of parse_braces "''oops''" syntax_error "\<lambda>k. Inr (reply ''oops'')" fresh "reply ''oops''"
            "\<lparr>candidates = Some [\<lparr>finishReason = Some ''STOP'',
               content = Some \<lparr>parts = Some [\<lparr>part_text = Some ''oops''\<rparr>]\<rparr>\<rparr>],
              text_fn = Inr (Some ''oops'')\<rparr>" "''tech''" "\<lambda>k. 0"]
      parse_failure_not_retried
        [of parse_braces "''oops''" syntax_error "\<lambda>k. Inr (reply ''oops'')" one_row "reply ''oops''"
            "\<lparr>candidates = Some [\<lparr>finishReason = Some ''STOP'',
               content = Some \<lparr>parts = Some [\<lparr>part_text = Some ''oops''\<rparr>]\<rparr>\<rparr>],
              text_fn = Inr (Some ''oops'')\<rparr>" "''tech''" "\<lambda>k. 0"]
      parse_failure_not_retried
        [of parse_quoting "''overloaded''"
            "\<lparr>status = None, message = Some (''Unexpected token in JSON: '' @ ''overloaded'')\<rparr>"
            "\<lambda>k. Inr (reply ''overloaded'')" fresh "reply ''overloaded''"
            "\<lparr>candidates = Some [\<lparr>finishReason = Some ''STOP'',
               content = Some \<lparr>parts = Some [\<lparr>part_text = Some ''overloaded''\<rparr>]\<rparr>\<rparr>],
              text_fn = Inr (Some ''overloaded'')\<rparr>" "''tech''" "\<lambda>k. 0"]
      c o
    by (simp add: parse_braces_def parse_quoting_def reply_def fresh_def one_row_def
          response_text_def sleep_def)
qed

theorem parse_failure_single_attempt_counterexample:
  "generateAIInsights ''tech'' (\<lambda>k. Inr (reply ''oops'')) parse_braces fresh =
     (Inr (Some (getFallbackInsights ''tech'')), \<lparr>calls = 1, sleeps = [], ticks = 0, rows = []\<rparr>)
   \<and> fst (generate_insights_step (\<lambda>k. Inr (reply ''oops'')) parse_braces (\<lambda>k. 0) ''tech'' one_row)
       = Inl (ThrownError syntax_error)
   \<and> calls (snd (generate_insights_step (\<lambda>k. Inr (reply ''oops'')) parse_braces (\<lambda>k. 0) ''tech'' one_row))
       = 1"
  by code_simp

subsection \<open>What the retry loops leave untouched, and the failing step\<close>

lemma inngest_loop_preserves:
  assumes fn: "\<And>w. f (snd (fn w)) = f w" and sl: "\<And>delay w. f (sleep delay w) = f w"
  shows "f (snd (inngest_retry_loop fn m d i w)) = f w"
proof (induction "nat (m - int i)" arbitrary: i w)
  case 0
  then have "\<not> int i < m" by simp
  then show ?case by (simp add: inngest_retry_loop.simps [of fn m d i w])
next
  case (Suc n)
  then have lt: "int i < m" and n: "n = nat (m - int (Suc i))" by auto
  obtain x w1 where fw: "fn w = (x, w1)" by (cases "fn w")
  with fn [of w] have w1: "f w1 = f w" by simp
  have ih: "f (snd (inngest_retry_loop fn m d (Suc i) (sleep (d * 2 ^ i) w1))) = f w"
    using Suc.hyps(1) [OF n, of "sleep (d * 2 ^ i) w1"] sl w1 by simp
  show ?case
    using lt fw w1 ih
    by (simp add: inngest_retry_loop.simps [of fn m d i w] split: sum.splits thrown.splits)
qed

lemma dashboard_loop_preserves:
  assumes fn: "\<And>w. f (snd (fn w)) = f w" and sl: "\<And>delay w. f (sleep delay w) = f w"
  shows "f (snd (dashboard_retry_loop fn m d i w)) = f w"
proof (induction "nat (m - int i)" arbitrary: i w)
  case 0
  then have "\<not> int i < m" by simp
  then show ?case by (simp add: dashboard_retry_loop.simps [of fn m d i w])
next
  case (Suc n)
  then have lt: "int i < m" and n: "n = nat (m - int (Suc i))" by auto
  obtain x w1 where fw: "fn w = (x, w1)" by (cases "fn w")
  with fn [of w] have w1: "f w1 = f w" by simp
  have ih: "f (snd (dashboard_retry_loop fn m d (Suc i) (sleep (d * 2 ^ i) w1))) = f w"
    using Suc.hyps(1) [OF n, of "sleep (d * 2 ^ i) w1"] sl w1 by simp
  show ?case
    using lt fw w1 ih
    by (simp add: dashboard_retry_loop.simps [of fn m d i w] Let_def
          split: sum.splits thrown.splits)
qed

lemma insights_attempt_ticks: "ticks (snd (insights_attempt rem parse w)) = ticks w"
  by (simp add: insights_attempt_def generateContent_def
        split: sum.splits option.splits)

lemma insights_attempt_rows: "rows (snd (insights_attempt rem parse w)) = rows w"
  by (simp add: insights_attempt_def generateContent_def
        split: sum.splits option.splits)

lemma generateAIInsights_ticks_rows:
  "ticks (snd (generateAIInsights industry rem parse w)) = ticks w \<and>
   rows (snd (generateAIInsights industry rem parse w)) = rows w"
proof -
  have t: "ticks (snd (dashboard_retry_loop (insights_attempt rem parse) 3 1000 0 w)) = ticks w"
    by (rule dashboard_loop_preserves) (simp_all add: insights_attempt_ticks sleep_def)
  have r: "rows (snd (dashboard_retry_loop (insights_attempt rem parse) 3 1000 0 w)) = rows w"
    by (rule dashboard_loop_preserves) (simp_all add: insights_attempt_rows sleep_def)
  obtain x w1 where l: "dashboard_retry_loop (insights_attempt rem parse) 3 1000 0 w = (x, w1)"
    by (cases "dashboard_retry_loop (insights_attempt rem parse) 3 1000 0 w")
  with t r show ?thesis
    by (simp add: generateAIInsights_def dashboard_retryWithBackoff_def
          split: sum.splits thrown.splits)
qed

lemma inngest_generateContent_ticks_rows:
  "ticks (snd (inngest_retryWithBackoff (generateContent rem) m d w)) = ticks w \<and>
   rows (snd (inngest_retryWithBackoff (generateContent rem) m d w)) = rows w"
  unfolding inngest_retryWithBackoff_def
  by (intro conjI inngest_loop_preserves) (simp_all add: generateContent_def sleep_def)

text \<open>
  C1, amended. In the scheduled job nothing stands in for a failed generation: when the
  retry wrapper rethrows (retries exhausted, or an error it does not retry), when the
  reply cannot be read, or when \<open>JSON.parse\<close> rejects the cleaned text, the step throws
  that very error, the table and the clock are as they were before the step, and the
  loop over the industries ends with the same error.
\<close>

theorem step_failure_propagates:
  assumes "inngest_retryWithBackoff (generateContent rem) 3 2000 w = (x, w1)"
    and "x = Inl t \<or>
         (\<exists>res. x = Inr res \<and>
            (response_text res = Inl t \<or>
             (\<exists>body e. response_text res = Inr body \<and> parse (cleanedText body) = Inl e \<and>
                t = ThrownError e)))"
  shows "generate_insights_step rem parse clock industry w = (Inl t, w1)
       \<and> generate_insights_steps rem parse clock (industry # rest) w = (Inl t, w1)
       \<and> rows w1 = rows w \<and> ticks w1 = ticks w"
proof -
  from assms have step: "generate_insights_step rem parse clock industry w = (Inl t, w1)"
    by (auto simp: generate_insights_step_def)
  moreover from step
  have "generate_insights_steps rem parse clock (industry # rest) w = (Inl t, w1)"
    by simp
  moreover from inngest_generateContent_ticks_rows [of rem 3 2000 w] assms(1)
  have "rows w1 = rows w \<and> ticks w1 = ticks w" by simp
  ultimately show ?thesis by simp
qed

theorem step_failure_propagates_witness:
  "generate_insights_step (\<lambda>k. Inl (ThrownError model_overloaded)) parse_braces (\<lambda>k. 0) ''tech'' one_row =
     (Inl (ThrownError model_overloaded), one_row\<lparr>calls := 3, sleeps := [2000, 4000]\<rparr>)
   \<and> generate_insights_steps (\<lambda>k. Inl (ThrownError model_overloaded)) parse_braces (\<lambda>k. 0)
        [''tech'', ''finance''] one_row =
     (Inl (ThrownError model_overloaded), one_row\<lparr>calls := 3, sleeps := [2000, 4000]\<rparr>)
   \<and> rows (one_row\<lparr>calls := 3, sleeps := [2000, 4000]\<rparr>) = rows one_row
   \<and> ticks (one_row\<lparr>calls := 3, sleeps := [2000, 4000]\<rparr>) = ticks one_row"
proof -
  have run: "inngest_retryWithBackoff (generateContent (\<lambda>k. Inl (ThrownError model_overloaded))) 3 2000 one_row =
      (Inl (ThrownError model_overloaded), one_row\<lparr>calls := 3, sleeps := [2000, 4000]\<rparr>)"
    by code_simp
  show ?thesis
    by (rule step_failure_propagates [OF run]) simp
qed

theorem batch_job_throws_counterexample:
  "fst (generateIndustryInsights (\<lambda>k. Inl (ThrownError too_many_requests)) parse_braces (\<lambda>k. 0) one_row)
     = Inl (ThrownError too_many_requests)
   \<and> fst (generateIndustryInsights (\<lambda>k. Inr (reply ''oops'')) parse_braces (\<lambda>k. 0) one_row)
     = Inl (ThrownError syntax_error)"
  by code_simp

subsection \<open>Objects, rows and the refresh timestamp\<close>

lemma map_of_insert_prop:
  "map_of (insert_prop k v ob) k' = (if k' = k then Some v else map_of ob k')"
  if "k \<notin> fst ` set ob"
  using that by (induction ob) (auto simp: image_iff)

lemma map_of_replace_prop:
  "map_of (map (\<lambda>(k', v'). if k' = k then (k', v) else (k', v')) ob) k' =
     (if k' = k then Some v else map_of ob k')"
  if "k \<in> fst ` set ob"
  using that
proof (induction ob)
  case Nil
  then show ?case by simp
next
  case (Cons p ob)
  obtain a b where p: "p = (a, b)" by (cases p)
  show ?case
  proof (cases "k \<in> fst ` set ob")
    case True
    from Cons.IH [OF True] show ?thesis by (auto simp: p)
  next
    case False
    then have "map (\<lambda>(k', v'). if k' = k then (k', v) else (k', v')) ob = ob"
      by (induction ob) (auto simp: image_iff)
    moreover from False Cons.prems have "a = k" by (simp add: p)
    moreover from False have "map_of ob k = None" by (simp add: map_of_eq_None_iff)
    ultimately show ?thesis by (simp add: p)
  qed
qed

lemma map_of_set_prop:
  "map_of (set_prop k v ob) k' = (if k' = k then Some v else map_of ob k')"
  unfolding set_prop_def by (simp add: map_of_insert_prop map_of_replace_prop)

lemma map_of_set_prop_same: "map_of (set_prop k v ob) k = Some v"
  by (simp add: map_of_set_prop)

lemma keys_insert_prop: "fst ` set (insert_prop k v ob) = insert k (fst ` set ob)"
proof (induction ob)
  case Nil
  show ?case by simp
next
  case (Cons p ob)
  obtain k' v' where p: "p = (k', v')" by (cases p)
  show ?case unfolding p using Cons.IH by (cases "key_before k k'") auto
qed

lemma keys_replace_prop:
  "map fst (map (\<lambda>(k', v'). if k' = k then (k', v) else (k', v')) ob) = map fst ob"
  by (induction ob) auto

lemma distinct_insert_prop:
  "distinct (map fst ob) \<Longrightarrow> k \<notin> fst ` set ob \<Longrightarrow> distinct (map fst (insert_prop k v ob))"
proof (induction ob)
  case Nil
  show ?case by simp
next
  case (Cons p ob)
  obtain k' v' where p: "p = (k', v')" by (cases p)
  from Cons.prems have "k \<notin> fst ` set ob" "k \<noteq> k'" "k' \<notin> fst ` set ob"
    and d: "distinct (map fst ob)"
    by (auto simp: p)
  with Cons.IH show ?case
    by (cases "key_before k k'") (auto simp: p keys_insert_prop)
qed

lemma distinct_set_prop:
  "distinct (map fst ob) \<Longrightarrow> distinct (map fst (set_prop k v ob))"
  unfolding set_prop_def
  by (simp add: keys_replace_prop distinct_insert_prop del: map_map)

lemma set_prop_mem: "(k, v) \<in> set (set_prop k v ob)"
proof -
  have "map_of (set_prop k v ob) k = Some v" by (rule map_of_set_prop_same)
  then show ?thesis by (rule map_of_SomeD)
qed

lemma distinct_fold_set_prop:
  "distinct (map fst ob) \<Longrightarrow> distinct (map fst (fold (\<lambda>(k, x). set_prop k x) xs ob))"
  by (induction xs arbitrary: ob) (auto simp: distinct_set_prop)

lemma map_of_fold_set_prop:
  "map_of (fold (\<lambda>(k, x). set_prop k x) data row) k' = (map_of row ++ map_of (rev data)) k'"
proof (induction data arbitrary: row)
  case Nil
  show ?case by simp
next
  case (Cons d ds)
  obtain k v where d: "d = (k, v)" by (cases d)
  have sp: "map_of (set_prop k v row) k' = (if k' = k then Some v else map_of row k')"
    by (rule map_of_set_prop)
  show ?case
    by (simp add: Cons.IH d sp map_add_def split: option.splits)
qed

lemma map_of_rows_replace:
  "map_of rws key = Some old \<Longrightarrow>
   map_of (map (\<lambda>(k, r). if k = key then (k, new) else (k, r)) rws) key = Some new"
  by (induction rws) (auto split: if_splits)

lemma date_now_eq: "date_now clock w = (clock (ticks w), w\<lparr>ticks := Suc (ticks w)\<rparr>)"
  by (simp add: date_now_def)

lemma db_create_stores:
  assumes "db_create data w = (Inr row, w')"
  shows "row = data \<and> (\<exists>k. rows w' = rows w @ [(k, data)])"
  using assms
  by (auto simp: db_create_def split: option.splits jsval.splits if_splits)

lemma db_update_stores:
  assumes "db_update key data w = (Inr row, w')"
    and "distinct (map fst data)" and "(k, v) \<in> set data"
  shows "map_of (rows w') key = Some row \<and> map_of row k = Some v"
proof -
  from assms(1) obtain old where old: "map_of (rows w) key = Some old"
    by (cases "map_of (rows w) key") (auto simp: db_update_def)
  with assms(1) have row: "row = fold (\<lambda>(k, x). set_prop k x) data old"
    and w': "rows w' = map (\<lambda>(k, r). if k = key then (k, row) else (k, r)) (rows w)"
    by (auto simp: db_update_def Let_def)
  from assms(2) have "distinct (map fst (rev data))" by (simp add: rev_map [symmetric])
  with assms(3) have "map_of (rev data) k = Some v" by simp
  then have "map_of row k = Some v"
    by (simp add: row map_of_fold_set_prop)
  moreover from old have "map_of (rows w') key = Some row"
    unfolding w' by (rule map_of_rows_replace)
  ultimately show ?thesis by simp
qed

text \<open>
  C8. Whenever a row is written, its \<open>nextUpdate\<close> is the value \<open>Date.now()\<close> returned
  for that write plus 7 * 24 * 60 * 60 * 1000 milliseconds. On the create path of
  \<open>getIndustryInsights\<close> (a known user without insights) the created row is appended to
  the table and returned, and \<open>Date.now()\<close> is the first clock read of the call. On the
  weekly update path a completed step has replaced the row of its industry, and
  \<open>Date.now()\<close> is the second clock read of the step, after \<open>new Date()\<close> for
  \<open>lastUpdated\<close>.
\<close>

theorem nextUpdate_is_a_week_ahead:
  "(auth = Some userId \<and> find_user userId = Some u \<and> user_industryInsight u = None \<and>
      getIndustryInsights auth find_user rem parse clock w = (Inr created, w') \<longrightarrow>
      (\<exists>k. rows w' = rows w @ [(k, created)]) \<and>
      map_of created ''nextUpdate'' = Some (JDate (clock (ticks w) + 7 * 24 * 60 * 60 * 1000)))
   \<and> (generate_insights_step rem parse clock industry w = (Inr r, w'') \<longrightarrow>
      (\<exists>row. map_of (rows w'') industry = Some row \<and>
         map_of row ''nextUpdate'' =
           Some (JDate (clock (Suc (ticks w)) + 7 * 24 * 60 * 60 * 1000))))"
proof (rule conjI; rule impI)
  assume a: "auth = Some userId \<and> find_user userId = Some u \<and> user_industryInsight u = None \<and>
      getIndustryInsights auth find_user rem parse clock w = (Inr created, w')"
  obtain x w1 where g: "generateAIInsights (user_industry u) rem parse w = (x, w1)"
    by (cases "generateAIInsights (user_industry u) rem parse w")
  with generateAIInsights_ticks_rows [of "user_industry u" rem parse w]
  have w1: "ticks w1 = ticks w" "rows w1 = rows w" by simp_all
  from a have a1: "auth = Some userId" and a2: "find_user userId = Some u"
    and a3: "user_industryInsight u = None"
    and a4: "getIndustryInsights auth find_user rem parse clock w = (Inr created, w')"
    by blast+
  from a4 g obtain insights where x: "x = Inr insights"
    by (cases x) (auto simp: getIndustryInsights_def a1 a2 a3)
  let ?data = "set_prop ''nextUpdate'' (JDate (clock (ticks w) + week_ms))
                 (spread insights [(''industry'', JStr (user_industry u))])"
  from a4 g x w1
  have "db_create ?data (w1\<lparr>ticks := Suc (ticks w1)\<rparr>) = (Inr created, w')"
    by (simp add: getIndustryInsights_def date_now_eq a1 a2 a3)
  from db_create_stores [OF this] w1
  have "created = ?data" and "\<exists>k. rows w' = rows w @ [(k, created)]" by auto
  then show "(\<exists>k. rows w' = rows w @ [(k, created)]) \<and>
      map_of created ''nextUpdate'' = Some (JDate (clock (ticks w) + 7 * 24 * 60 * 60 * 1000))"
    by (simp add: map_of_set_prop_same week_ms_def)
next
  assume s: "generate_insights_step rem parse clock industry w = (Inr r, w'')"
  obtain x w1 where l: "inngest_retryWithBackoff (generateContent rem) 3 2000 w = (x, w1)"
    by (cases "inngest_retryWithBackoff (generateContent rem) 3 2000 w")
  with inngest_generateContent_ticks_rows [of rem 3 2000 w]
  have w1: "ticks w1 = ticks w" by simp
  from s l obtain res where x: "x = Inr res"
    by (cases x) (auto simp: generate_insights_step_def)
  from s l x obtain body where b: "response_text res = Inr body"
    by (cases "response_text res") (auto simp: generate_insights_step_def)
  from s l x b obtain insights where p: "parse (cleanedText body) = Inr insights"
    by (cases "parse (cleanedText body)") (auto simp: generate_insights_step_def)
  let ?inner = "set_prop ''lastUpdated'' (JDate (clock (ticks w))) (spread (Some insights) [])"
  let ?data = "set_prop ''nextUpdate'' (JDate (clock (Suc (ticks w)) + week_ms)) ?inner"
  let ?w3 = "w1\<lparr>ticks := Suc (Suc (ticks w))\<rparr>"
  from s l x b p w1 obtain row where u: "db_update industry ?data ?w3 = (Inr row, w'')"
    by (cases "db_update industry ?data ?w3")
       (auto simp: generate_insights_step_def date_now_eq split: sum.splits)
  have "distinct (map fst ?data)"
    by (intro distinct_set_prop) (simp add: spread_def distinct_fold_set_prop)
  from db_update_stores [OF u this set_prop_mem]
  show "\<exists>row. map_of (rows w'') industry = Some row \<and>
         map_of row ''nextUpdate'' =
           Some (JDate (clock (Suc (ticks w)) + 7 * 24 * 60 * 60 * 1000))"
    by (auto simp: week_ms_def)
qed

theorem nextUpdate_is_a_week_ahead_witness:
  "((\<exists>k. rows (snd (getIndustryInsights (Some ''user_1'') known_user (\<lambda>k. Inr (reply ''{}''))
                      parse_braces (\<lambda>k. 1000 + int k) fresh))
          = rows fresh @ [(k, [(''industry'', JStr ''tech''), (''nextUpdate'', JDate 604801000)])])
    \<and> map_of [(''industry'', JStr ''tech''), (''nextUpdate'', JDate 604801000)] ''nextUpdate''
        = Some (JDate (1000 + 7 * 24 * 60 * 60 * 1000)))
   \<and> (\<exists>row. map_of (rows (snd (generate_insights_step (\<lambda>k. Inr (reply ''{}'')) parse_braces
                                  (\<lambda>k. 1000 + int k) ''tech'' one_row))) ''tech'' = Some row
          \<and> map_of row ''nextUpdate'' = Some (JDate (1001 + 7 * 24 * 60 * 60 * 1000)))"
proof -
  have create: "getIndustryInsights (Some ''user_1'') known_user (\<lambda>k. Inr (reply ''{}''))
      parse_braces (\<lambda>k. 1000 + int k) fresh =
      (Inr [(''industry'', JStr ''tech''), (''nextUpdate'', JDate 604801000)],
       snd (getIndustryInsights (Some ''user_1'') known_user (\<lambda>k. Inr (reply ''{}''))
              parse_braces (\<lambda>k. 1000 + int k) fresh))"
    by code_simp
  have update: "generate_insights_step (\<lambda>k. Inr (reply ''{}'')) parse_braces
      (\<lambda>k. 1000 + int k) ''tech'' one_row =
      (Inr [(''industry'', JStr ''tech''), (''status'', JStr ''updated'')],
       snd (generate_insights_step (\<lambda>k. Inr (reply ''{}'')) parse_braces
              (\<lambda>k. 1000 + int k) ''tech'' one_row))"
    by code_simp
  have t: "ticks fresh = 0" "ticks one_row = 0" by (simp_all add: fresh_def one_row_def)
  show ?thesis
    using nextUpdate_is_a_week_ahead
        [of "Some ''user_1''" "''user_1''" known_user
            "\<lparr>user_industry = ''tech'', user_industryInsight = None\<rparr>"
            "\<lambda>k. Inr (reply ''{}'')" parse_braces "\<lambda>k. 1000 + int k" fresh
            "[(''industry'', JStr ''tech''), (''nextUpdate'', JDate 604801000)]" _
            "''tech''" _ _]
      nextUpdate_is_a_week_ahead
        [of _ _ _ _ "\<lambda>k. Inr (reply ''{}'')" parse_braces "\<lambda>k. 1000 + int k" one_row _ _
            "''tech''" _ _]
      create update t
    by (simp add: known_user_def)
qed

end
